theory Spec2Isabelle
  imports Main
begin

section \<open>Data model\<close>

text \<open>
  The program under verification is \<^verbatim>\<open>src/codes/surface_code_generator.py\<close>:
  \<^verbatim>\<open>
  def generate_surface_code_pcm(distance : int) -> np.array:
      myCode = RotatedPlanarCode(distance, distance)
      return myCode.stabilizers

  if __name__=='__main__':
      for d in [3,5,7,9,11,13,15]:
          a = generate_surface_code_pcm(d)
          np.savetxt(f"pcm_matrices/distance_{d}_surface_code.csv", a, delimiter=",", fmt="%d")
  \<close>
  A two-dimensional integer array is a list of rows; Python integers are unbounded.
\<close>

type_synonym matrix = "int list list"

text \<open>
  An exception is a value. \<open>InvalidParameterError\<close> stands for whatever the constructor
  \<^verbatim>\<open>RotatedPlanarCode\<close> raises; \<open>PathNotFoundError p\<close> is the error of opening the path
  \<open>p\<close> for writing below a directory that does not exist; \<open>WriteError p\<close> is any
  other refusal of the file system to open or write \<open>p\<close>.
\<close>

datatype error = InvalidParameterError | PathNotFoundError string | WriteError string

text \<open>
  The object the constructor returns, read only through its attribute
  \<^verbatim>\<open>stabilizers\<close>.
\<close>

record code_handle =
  stabilizers :: matrix

text \<open>
  The class \<^verbatim>\<open>RotatedPlanarCode\<close> belongs to the library \<^verbatim>\<open>qecsim\<close>. Its
  constructor is a parameter of the model: a function of the two lattice dimensions that
  either raises or returns an object.
\<close>

type_synonym constructor = "int \<Rightarrow> int \<Rightarrow> error + code_handle"

text \<open>
  The file system as the program sees it, relative to the working directory: the
  directories that exist, the content of every file, the paths that cannot be opened for
  writing (no permission, a read-only or full device), and the paths written so far,
  oldest first.
\<close>

record world =
  dirs :: "string set"
  files :: "string \<rightharpoonup> string"
  unwritable :: "string set"
  log :: "string list"

section \<open>Formatting\<close>

text \<open>
  Decimal formatting of an integer, as \<^verbatim>\<open>"%d" % x\<close> and as \<^verbatim>\<open>{d}\<close> inside
  an f-string produce it: a minus sign for a negative value, then the digits without
  leading zeros.
\<close>

definition digit_char :: "nat \<Rightarrow> char" where
  "digit_char k = ''0123456789'' ! k"

fun digits :: "nat \<Rightarrow> string" where
  "digits n = (if n < 10 then [digit_char n] else digits (n div 10) @ [digit_char (n mod 10)])"

declare digits.simps [simp del]

definition format_d :: "int \<Rightarrow> string" where
  "format_d x = (if x < 0 then CHR ''-'' # digits (nat (- x)) else digits (nat x))"

definition newline :: char where
  "newline = CHR 0x0A"

definition comma :: char where
  "comma = CHR '',''"

text \<open>\<^verbatim>\<open>sep.join(parts)\<close> for a one-character separator.\<close>

fun join :: "char \<Rightarrow> string list \<Rightarrow> string" where
  "join sep [] = []"
| "join sep [x] = x"
| "join sep (x # y # ys) = x @ sep # join sep (y # ys)"

text \<open>
  What \<^verbatim>\<open>np.savetxt(fname, X, delimiter=",", fmt="%d")\<close> writes for a two-dimensional
  \<open>X\<close>: the row format is \<^verbatim>\<open>"%d"\<close> repeated once per column and joined by the
  delimiter; each row is written followed by the newline; header and footer are empty.
\<close>

definition row_text :: "int list \<Rightarrow> string" where
  "row_text row = join comma (map format_d row)"

definition savetxt_text :: "matrix \<Rightarrow> string" where
  "savetxt_text X = concat (map (\<lambda>row. row_text row @ [newline]) X)"

section \<open>The file system\<close>

text \<open>The directory part of a path: everything before the last slash.\<close>

definition dirname :: "string \<Rightarrow> string" where
  "dirname p = rev (drop 1 (dropWhile (\<lambda>c. c \<noteq> CHR ''/'') (rev p)))"

definition dir_exists :: "world \<Rightarrow> string \<Rightarrow> bool" where
  "dir_exists w dir = (dir = [] \<or> dir \<in> dirs w)"

definition write_file :: "string \<Rightarrow> string \<Rightarrow> world \<Rightarrow> world" where
  "write_file p t w = w\<lparr>files := (files w)(p \<mapsto> t), log := log w @ [p]\<rparr>"

text \<open>
  A path can be opened for writing when it is not itself a directory and the file system
  does not refuse it.
\<close>

definition writable :: "world \<Rightarrow> string \<Rightarrow> bool" where
  "writable w p = (p \<notin> dirs w \<and> p \<notin> unwritable w)"

text \<open>
  \<^verbatim>\<open>np.savetxt\<close> opens the file for writing, which creates or truncates the file and
  creates no directory. Below a missing directory the open fails; it fails too when the
  path is a directory or cannot be written. In each case nothing is written.
\<close>

definition savetxt :: "string \<Rightarrow> matrix \<Rightarrow> world \<Rightarrow> error + world" where
  "savetxt fname X w =
     (if dir_exists w (dirname fname)
      then (if writable w fname then Inr (write_file fname (savetxt_text X) w)
            else Inl (WriteError fname))
      else Inl (PathNotFoundError fname))"

section \<open>The program\<close>

definition generate_surface_code_pcm :: "constructor \<Rightarrow> int \<Rightarrow> error + matrix" where
  "generate_surface_code_pcm RotatedPlanarCode distance =
     (case RotatedPlanarCode distance distance of
        Inl e \<Rightarrow> Inl e
      | Inr myCode \<Rightarrow> Inr (stabilizers myCode))"

text \<open>The f-string \<^verbatim>\<open>f"pcm_matrices/distance_{d}_surface_code.csv"\<close>.\<close>

definition csv_path :: "int \<Rightarrow> string" where
  "csv_path d = ''pcm_matrices/distance_'' @ format_d d @ ''_surface_code.csv''"

text \<open>One pass through the body of the \<^verbatim>\<open>for\<close> loop.\<close>

definition loop_body :: "constructor \<Rightarrow> int \<Rightarrow> world \<Rightarrow> error + world" where
  "loop_body RotatedPlanarCode d w =
     (case generate_surface_code_pcm RotatedPlanarCode d of
        Inl e \<Rightarrow> Inl e
      | Inr a \<Rightarrow> savetxt (csv_path d) a w)"

text \<open>
  The loop. An exception ends the program where it is raised: the result is the world at
  that moment and the exception; \<open>None\<close> is normal completion.
\<close>

fun main_loop :: "constructor \<Rightarrow> int list \<Rightarrow> world \<Rightarrow> world \<times> error option" where
  "main_loop RotatedPlanarCode [] w = (w, None)"
| "main_loop RotatedPlanarCode (d # ds) w =
     (case loop_body RotatedPlanarCode d w of
        Inl e \<Rightarrow> (w, Some e)
      | Inr w' \<Rightarrow> main_loop RotatedPlanarCode ds w')"

definition distances :: "int list" where
  "distances = [3, 5, 7, 9, 11, 13, 15]"

definition main :: "constructor \<Rightarrow> world \<Rightarrow> world \<times> error option" where
  "main RotatedPlanarCode w = main_loop RotatedPlanarCode distances w"

section \<open>Reading a file back\<close>

text \<open>\<^verbatim>\<open>s.split(sep)\<close> for a one-character separator: never the empty list.\<close>

fun split_on :: "char \<Rightarrow> string \<Rightarrow> string list" where
  "split_on sep [] = [[]]"
| "split_on sep (c # cs) =
     (if c = sep then [] # split_on sep cs
      else (case split_on sep cs of [] \<Rightarrow> [[c]] | f # fs \<Rightarrow> (c # f) # fs))"

text \<open>The value of a decimal digit: its position in the digit string.\<close>

fun position :: "char \<Rightarrow> string \<Rightarrow> nat option" where
  "position c [] = None"
| "position c (x # xs) = (if x = c then Some 0 else map_option Suc (position c xs))"

definition digit_val :: "char \<Rightarrow> nat option" where
  "digit_val c = position c ''0123456789''"

fun parse_digits :: "nat \<Rightarrow> string \<Rightarrow> nat option" where
  "parse_digits acc [] = Some acc"
| "parse_digits acc (c # cs) =
     (case digit_val c of None \<Rightarrow> None | Some v \<Rightarrow> parse_digits (10 * acc + v) cs)"

definition parse_nat :: "string \<Rightarrow> nat option" where
  "parse_nat s = (if s = [] then None else parse_digits 0 s)"

definition parse_int :: "string \<Rightarrow> int option" where
  "parse_int s =
     (case s of
        [] \<Rightarrow> None
      | c # r \<Rightarrow> if c = CHR ''-'' then map_option (\<lambda>n. - int n) (parse_nat r)
                 else map_option int (parse_nat s))"

text \<open>
  The lines of a text whose lines end with a newline; an unterminated last line counts as
  a line.
\<close>

definition csv_lines :: "string \<Rightarrow> string list" where
  "csv_lines t = (let ls = split_on newline t in if last ls = [] then butlast ls else ls)"

text \<open>The fields of a line; the empty line has no field.\<close>

definition csv_fields :: "string \<Rightarrow> string list" where
  "csv_fields l = (if l = [] then [] else split_on comma l)"

definition parse_row :: "string \<Rightarrow> int list option" where
  "parse_row l = those (map parse_int (csv_fields l))"

text \<open>
  The parser of the round-trip property, following the specification's words: a file of
  comma-separated integers, one row per line, read back into an integer matrix.
\<close>

definition parse_csv :: "string \<Rightarrow> matrix option" where
  "parse_csv t = those (map parse_row (csv_lines t))"

section \<open>The collaborator and the worlds of the examples\<close>

text \<open>
  Modelled from the spec: the distances that the code constructor accepts. The constructor
  is the class \<^verbatim>\<open>RotatedPlanarCode\<close> of the library \<^verbatim>\<open>qecsim\<close>, which is not
  among the sources; the specification asks for an odd integer of at least 3.
\<close>

definition valid_distance :: "int \<Rightarrow> bool" where
  "valid_distance d = (3 \<le> d \<and> odd d)"

text \<open>
  Modelled from the spec: the code constructor itself, by its contract only. A valid
  distance yields an object with a stabiliser matrix; any other distance is rejected with
  \<open>InvalidParameterError\<close>. The specification does not say what the matrix is, so its
  derivation is a parameter.
\<close>

definition build_surface_code :: "(int \<Rightarrow> matrix) \<Rightarrow> constructor" where
  "build_surface_code derive rows columns =
     (if valid_distance rows \<and> valid_distance columns
      then Inr \<lparr>stabilizers = derive rows\<rparr>
      else Inl InvalidParameterError)"

text \<open>A fixed small matrix, for the examples.\<close>

definition stub_matrix :: "int \<Rightarrow> matrix" where
  "stub_matrix d = [[1, 0, 1, 0], [0, 1, 0, 1]]"

text \<open>A constructor that behaves as the one above, except that it raises at one distance.\<close>

definition failing_at :: "int \<Rightarrow> constructor" where
  "failing_at k rows columns =
     (if rows = k then Inl InvalidParameterError
      else build_surface_code stub_matrix rows columns)"

text \<open>The text of the fixed small matrix.\<close>

definition stub_text :: string where
  "stub_text = savetxt_text (stub_matrix 0)"

text \<open>
  Two worlds without files: in the first the output directory exists, in the second it
  does not.
\<close>

definition world_with_dir :: world where
  "world_with_dir =
     \<lparr>dirs = {''pcm_matrices''}, files = Map.empty, unwritable = {}, log = []\<rparr>"

definition world_without_dir :: world where
  "world_without_dir = \<lparr>dirs = {}, files = Map.empty, unwritable = {}, log = []\<rparr>"



section \<open>Decimal digits\<close>

lemma digit_val_digit_char: "k < 10 \<Longrightarrow> digit_val (digit_char k) = Some k"
proof -
  assume "k < 10"
  then have "k = 0 \<or> k = 1 \<or> k = 2 \<or> k = 3 \<or> k = 4 \<or> k = 5 \<or> k = 6 \<or> k = 7 \<or> k = 8 \<or> k = 9"
    by arith
  then show ?thesis
    by (elim disjE) (simp_all add: digit_char_def digit_val_def)
qed

lemma digit_char_in: "k < 10 \<Longrightarrow> digit_char k \<in> set ''0123456789''"
proof -
  assume "k < 10"
  then have "k = 0 \<or> k = 1 \<or> k = 2 \<or> k = 3 \<or> k = 4 \<or> k = 5 \<or> k = 6 \<or> k = 7 \<or> k = 8 \<or> k = 9"
    by arith
  then show ?thesis
    by (elim disjE) (simp_all add: digit_char_def)
qed

lemma digits_nonempty: "digits n \<noteq> []"
  by (subst digits.simps) simp

lemma digits_charset: "set (digits n) \<subseteq> set ''0123456789''"
proof (induction n rule: digits.induct)
  case (1 n)
  show ?case
  proof (cases "n < 10")
    case True
    then show ?thesis using digit_char_in [of n] by (subst digits.simps) simp
  next
    case False
    have "n mod 10 < 10" by simp
    then have "digit_char (n mod 10) \<in> set ''0123456789''" by (rule digit_char_in)
    with False 1 show ?thesis by (subst digits.simps) simp
  qed
qed

lemma parse_digits_snoc:
  "parse_digits acc (cs @ [c]) =
     (case parse_digits acc cs of None \<Rightarrow> None
      | Some a \<Rightarrow> (case digit_val c of None \<Rightarrow> None | Some v \<Rightarrow> Some (10 * a + v)))"
  by (induction cs arbitrary: acc) (auto split: option.splits)

lemma parse_digits_digits: "parse_digits 0 (digits n) = Some n"
proof (induction n rule: digits.induct)
  case (1 n)
  show ?case
  proof (cases "n < 10")
    case True
    then show ?thesis by (subst digits.simps) (simp add: digit_val_digit_char)
  next
    case False
    have "digit_val (digit_char (n mod 10)) = Some (n mod 10)"
      by (rule digit_val_digit_char) simp
    with False 1 show ?thesis
      by (subst digits.simps) (simp add: parse_digits_snoc)
  qed
qed

lemma parse_nat_digits: "parse_nat (digits n) = Some n"
  by (simp add: parse_nat_def digits_nonempty parse_digits_digits)

lemma digits_no_minus: "CHR ''-'' \<notin> set (digits n)"
  using digits_charset [of n] by auto

lemma parse_int_format_d: "parse_int (format_d x) = Some x"
proof (cases "x < 0")
  case True
  then show ?thesis by (simp add: parse_int_def format_d_def parse_nat_digits)
next
  case False
  obtain c r where cr: "digits (nat x) = c # r"
    using digits_nonempty [of "nat x"] by (cases "digits (nat x)") auto
  have "c \<noteq> CHR ''-''" using digits_no_minus [of "nat x"] cr by auto
  with False cr parse_nat_digits [of "nat x"] show ?thesis
    by (simp add: parse_int_def format_d_def)
qed

section \<open>Splitting and joining\<close>

lemma split_on_nonempty: "split_on sep s \<noteq> []"
  by (induction s) (auto split: list.splits)

lemma split_on_no_sep: "sep \<notin> set f \<Longrightarrow> split_on sep f = [f]"
  by (induction f) auto

lemma split_on_append_sep:
  "sep \<notin> set f \<Longrightarrow> split_on sep (f @ sep # rest) = f # split_on sep rest"
  by (induction f) auto

lemma split_on_join:
  "fs \<noteq> [] \<Longrightarrow> list_all (\<lambda>f. sep \<notin> set f) fs \<Longrightarrow> split_on sep (join sep fs) = fs"
proof (induction sep fs rule: join.induct)
  case (1 sep)
  then show ?case by simp
next
  case (2 sep x)
  then show ?case by (simp add: split_on_no_sep)
next
  case (3 sep x y ys)
  then show ?case by (simp add: split_on_append_sep)
qed

lemma split_on_lines:
  "list_all (\<lambda>l. sep \<notin> set l) ls \<Longrightarrow>
   split_on sep (concat (map (\<lambda>l. l @ [sep]) ls)) = ls @ [[]]"
  by (induction ls) (simp_all add: split_on_append_sep)

lemma those_map_Some: "those (map (\<lambda>x. Some (g x)) xs) = Some (map g xs)"
  by (induction xs) simp_all

lemma those_map_id:
  "list_all (\<lambda>x. f (g x) = Some x) xs \<Longrightarrow> those (map (f \<circ> g) xs) = Some xs"
  by (induction xs) simp_all

lemma format_d_nonempty: "format_d x \<noteq> []"
  by (simp add: format_d_def digits_nonempty)

lemma digits_no_char: "c \<notin> set ''0123456789'' \<Longrightarrow> c \<notin> set (digits n)"
  using digits_charset [of n] by blast

lemma format_d_no_char:
  assumes "c \<notin> set ''0123456789''" and "c \<noteq> CHR ''-''"
  shows "c \<notin> set (format_d x)"
proof (cases "x < 0")
  case True
  with assms digits_no_char [of c "nat (- x)"] show ?thesis
    by (simp add: format_d_def)
next
  case False
  with assms digits_no_char [of c "nat x"] show ?thesis
    by (simp add: format_d_def)
qed

lemma format_d_no_comma: "comma \<notin> set (format_d x)"
  by (rule format_d_no_char) (simp_all add: comma_def)

lemma format_d_no_newline: "newline \<notin> set (format_d x)"
  by (rule format_d_no_char) (simp_all add: newline_def)


lemma mem_join:
  "c \<in> set (join sep fs) \<Longrightarrow> c = sep \<or> (\<exists>f \<in> set fs. c \<in> set f)"
proof (induction sep fs rule: join.induct)
  case (1 sep)
  then show ?case by simp
next
  case (2 sep x)
  then show ?case by simp
next
  case (3 sep x y ys)
  from 3(2) have "c \<in> set x \<or> c = sep \<or> c \<in> set (join sep (y # ys))" by auto
  then show ?case
  proof (elim disjE)
    assume "c \<in> set x"
    then show ?thesis by simp
  next
    assume "c = sep"
    then show ?thesis by simp
  next
    assume "c \<in> set (join sep (y # ys))"
    then have "c = sep \<or> (\<exists>f \<in> set (y # ys). c \<in> set f)" by (rule 3(1))
    then show ?thesis by (simp del: join.simps) blast
  qed
qed

lemma join_nonempty: "fs \<noteq> [] \<Longrightarrow> hd fs \<noteq> [] \<Longrightarrow> join sep fs \<noteq> []"
  by (induction sep fs rule: join.induct) simp_all

section \<open>The serialised text\<close>

lemma row_text_no_newline: "newline \<notin> set (row_text row)"
proof
  assume "newline \<in> set (row_text row)"
  then have "newline = comma \<or> (\<exists>f \<in> set (map format_d row). newline \<in> set f)"
    unfolding row_text_def by (rule mem_join)
  then show False
  proof
    assume "newline = comma"
    then show False by (simp add: newline_def comma_def)
  next
    assume "\<exists>f \<in> set (map format_d row). newline \<in> set f"
    then obtain x where "newline \<in> set (format_d x)" by auto
    then show False using format_d_no_newline [of x] by simp
  qed
qed

lemma csv_fields_row_text: "csv_fields (row_text row) = map format_d row"
proof (cases row)
  case Nil
  then show ?thesis by (simp add: csv_fields_def row_text_def)
next
  case (Cons x xs)
  have ne: "row_text row \<noteq> []"
    unfolding row_text_def using Cons
    by (intro join_nonempty) (simp_all add: format_d_nonempty)
  have "list_all (\<lambda>f. comma \<notin> set f) (map format_d row)"
    by (simp add: list_all_iff format_d_no_comma)
  then have "split_on comma (join comma (map format_d row)) = map format_d row"
    using Cons by (intro split_on_join) simp_all
  with ne show ?thesis by (simp add: csv_fields_def row_text_def)
qed

lemma parse_row_row_text: "parse_row (row_text row) = Some row"
proof -
  have "list_all (\<lambda>x. parse_int (format_d x) = Some x) row"
    by (simp add: list_all_iff parse_int_format_d)
  then have "those (map (parse_int \<circ> format_d) row) = Some row"
    by (rule those_map_id)
  then show ?thesis
    by (simp add: parse_row_def csv_fields_row_text)
qed

lemma csv_lines_savetxt_text: "csv_lines (savetxt_text X) = map row_text X"
proof -
  have "list_all (\<lambda>l. newline \<notin> set l) (map row_text X)"
    by (simp add: list_all_iff row_text_no_newline)
  then have "split_on newline (concat (map (\<lambda>l. l @ [newline]) (map row_text X))) = map row_text X @ [[]]"
    by (rule split_on_lines)
  then have "split_on newline (savetxt_text X) = map row_text X @ [[]]"
    by (simp add: savetxt_text_def comp_def)
  then show ?thesis
    by (simp add: csv_lines_def)
qed

section \<open>The loop\<close>

lemma dirname_append: "CHR ''/'' \<notin> set b \<Longrightarrow> dirname (a @ CHR ''/'' # b) = a"
proof -
  assume nb: "CHR ''/'' \<notin> set b"
  have "dropWhile (\<lambda>c. c \<noteq> CHR ''/'') (rev b @ CHR ''/'' # rev a) =
        dropWhile (\<lambda>c. c \<noteq> CHR ''/'') (CHR ''/'' # rev a)"
    using nb by (intro dropWhile_append2) auto
  then show ?thesis by (simp add: dirname_def)
qed

lemma format_d_no_slash: "CHR ''/'' \<notin> set (format_d d)"
  by (rule format_d_no_char) simp_all

lemma csv_path_split:
  "csv_path d = ''pcm_matrices'' @ CHR ''/'' # (''distance_'' @ format_d d @ ''_surface_code.csv'')"
  by (simp add: csv_path_def)

lemma dirname_csv_path: "dirname (csv_path d) = ''pcm_matrices''"
  unfolding csv_path_split
  by (rule dirname_append) (simp add: format_d_no_slash)

lemma format_d_inj: "format_d a = format_d b \<Longrightarrow> a = b"
proof -
  assume "format_d a = format_d b"
  then have "parse_int (format_d a) = parse_int (format_d b)" by simp
  then show "a = b" by (simp add: parse_int_format_d)
qed

lemma csv_path_inj: "csv_path a = csv_path b \<Longrightarrow> a = b"
  by (rule format_d_inj) (simp add: csv_path_def)

lemma savetxt_dir_present:
  "''pcm_matrices'' \<in> dirs w \<Longrightarrow> writable w (csv_path d) \<Longrightarrow>
   savetxt (csv_path d) X w = Inr (write_file (csv_path d) (savetxt_text X) w)"
  by (simp add: savetxt_def dir_exists_def dirname_csv_path)

lemma savetxt_unwritable:
  "''pcm_matrices'' \<in> dirs w \<Longrightarrow> \<not> writable w (csv_path d) \<Longrightarrow>
   savetxt (csv_path d) X w = Inl (WriteError (csv_path d))"
  by (simp add: savetxt_def dir_exists_def dirname_csv_path)

lemma savetxt_dir_absent:
  "''pcm_matrices'' \<notin> dirs w \<Longrightarrow>
   savetxt (csv_path d) X w = Inl (PathNotFoundError (csv_path d))"
  by (simp add: savetxt_def dir_exists_def dirname_csv_path)

lemma savetxt_target_is_directory:
  "''pcm_matrices'' \<in> dirs w \<Longrightarrow> csv_path d \<in> dirs w \<Longrightarrow>
   savetxt (csv_path d) X w = Inl (WriteError (csv_path d))"
  by (rule savetxt_unwritable) (simp_all add: writable_def)

lemma generate_ok:
  "RPC d d = Inr c \<Longrightarrow> generate_surface_code_pcm RPC d = Inr (stabilizers c)"
  by (simp add: generate_surface_code_pcm_def)

lemma generate_error:
  "RPC d d = Inl e \<Longrightarrow> generate_surface_code_pcm RPC d = Inl e"
  by (simp add: generate_surface_code_pcm_def)

lemma loop_body_ok:
  "RPC d d = Inr c \<Longrightarrow> ''pcm_matrices'' \<in> dirs w \<Longrightarrow> writable w (csv_path d) \<Longrightarrow>
   loop_body RPC d w = Inr (write_file (csv_path d) (savetxt_text (stabilizers c)) w)"
  by (simp add: loop_body_def generate_ok savetxt_dir_present)

lemma loop_body_unwritable:
  "RPC d d = Inr c \<Longrightarrow> ''pcm_matrices'' \<in> dirs w \<Longrightarrow> \<not> writable w (csv_path d) \<Longrightarrow>
   loop_body RPC d w = Inl (WriteError (csv_path d))"
  by (simp add: loop_body_def generate_ok savetxt_unwritable)

lemma loop_body_constructor_error:
  "RPC d d = Inl e \<Longrightarrow> loop_body RPC d w = Inl e"
  by (simp add: loop_body_def generate_error)

lemma loop_body_dir_absent:
  "RPC d d = Inr c \<Longrightarrow> ''pcm_matrices'' \<notin> dirs w \<Longrightarrow>
   loop_body RPC d w = Inl (PathNotFoundError (csv_path d))"
  by (simp add: loop_body_def generate_ok savetxt_dir_absent)

lemma loop_body_Inr:
  assumes "loop_body RPC d w = Inr w'"
  obtains c where "RPC d d = Inr c" and "''pcm_matrices'' \<in> dirs w"
    and "writable w (csv_path d)"
    and "w' = write_file (csv_path d) (savetxt_text (stabilizers c)) w"
proof (cases "RPC d d")
  case (Inl e)
  with assms show ?thesis by (simp add: loop_body_constructor_error)
next
  case (Inr c)
  show ?thesis
  proof (cases "''pcm_matrices'' \<in> dirs w")
    case True
    show ?thesis
    proof (cases "writable w (csv_path d)")
      case wr: True
      with Inr \<open>''pcm_matrices'' \<in> dirs w\<close> assms that show ?thesis
        by (simp add: loop_body_ok)
    next
      case False
      with Inr True assms show ?thesis by (simp add: loop_body_unwritable)
    qed
  next
    case False
    with Inr assms show ?thesis by (simp add: loop_body_dir_absent)
  qed
qed

lemma dirs_write_file: "dirs (write_file p t w) = dirs w"
  by (simp add: write_file_def)

lemma unwritable_write_file: "unwritable (write_file p t w) = unwritable w"
  by (simp add: write_file_def)

lemma writable_write_file: "writable (write_file p t w) q = writable w q"
  by (simp add: writable_def write_file_def)

lemma log_write_file: "log (write_file p t w) = log w @ [p]"
  by (simp add: write_file_def)

lemma files_write_file: "files (write_file p t w) = (files w)(p \<mapsto> t)"
  by (simp add: write_file_def)

lemma main_loop_append:
  "main_loop RPC (ds1 @ ds2) w =
     (case main_loop RPC ds1 w of
        (w1, None) \<Rightarrow> main_loop RPC ds2 w1
      | (w1, Some e) \<Rightarrow> (w1, Some e))"
  by (induction ds1 arbitrary: w) (simp_all split: sum.splits)

lemma main_loop_cong:
  "list_all (\<lambda>x. RPC' x x = RPC x x) ds \<Longrightarrow> main_loop RPC' ds w = main_loop RPC ds w"
  by (induction ds arbitrary: w)
     (simp_all add: loop_body_def generate_surface_code_pcm_def split: sum.splits)

lemma main_loop_dirs: "main_loop RPC ds w = (w', r) \<Longrightarrow> dirs w' = dirs w"
proof (induction ds arbitrary: w)
  case Nil
  then show ?case by simp
next
  case (Cons d ds)
  show ?case
  proof (cases "loop_body RPC d w")
    case (Inl e)
    with Cons.prems show ?thesis by simp
  next
    case (Inr v)
    then have "dirs v = dirs w" by (elim loop_body_Inr) (simp add: dirs_write_file)
    moreover from Inr Cons.prems have "main_loop RPC ds v = (w', r)" by simp
    then have "dirs w' = dirs v" by (rule Cons.IH)
    ultimately show ?thesis by simp
  qed
qed

lemma main_loop_log:
  "main_loop RPC ds w = (w', None) \<Longrightarrow> log w' = log w @ map csv_path ds"
proof (induction ds arbitrary: w)
  case Nil
  then show ?case by simp
next
  case (Cons d ds)
  show ?case
  proof (cases "loop_body RPC d w")
    case (Inl e)
    with Cons.prems show ?thesis by simp
  next
    case (Inr v)
    then have "log v = log w @ [csv_path d]" by (elim loop_body_Inr) (simp add: log_write_file)
    moreover from Inr Cons.prems have "main_loop RPC ds v = (w', None)" by simp
    then have "log w' = log v @ map csv_path ds" by (rule Cons.IH)
    ultimately show ?thesis by simp
  qed
qed

lemma main_loop_keeps_files:
  "main_loop RPC ds w = (w', r) \<Longrightarrow> files w p \<noteq> None \<Longrightarrow> files w' p \<noteq> None"
proof (induction ds arbitrary: w)
  case Nil
  then show ?case by simp
next
  case (Cons d ds)
  show ?case
  proof (cases "loop_body RPC d w")
    case (Inl e)
    with Cons.prems show ?thesis by simp
  next
    case (Inr v)
    then have "files v p \<noteq> None"
      using Cons.prems(2) by (elim loop_body_Inr) (simp add: files_write_file)
    moreover from Inr Cons.prems have "main_loop RPC ds v = (w', r)" by simp
    ultimately show ?thesis by (rule Cons.IH [rotated])
  qed
qed

lemma main_loop_completed_files:
  "main_loop RPC ds w = (w', None) \<Longrightarrow> d \<in> set ds \<Longrightarrow> files w' (csv_path d) \<noteq> None"
proof (induction ds arbitrary: w)
  case Nil
  then show ?case by simp
next
  case (Cons x ds)
  show ?case
  proof (cases "loop_body RPC x w")
    case (Inl e)
    with Cons.prems show ?thesis by simp
  next
    case (Inr v)
    with Cons.prems have run: "main_loop RPC ds v = (w', None)" by simp
    show ?thesis
    proof (cases "d = x")
      case True
      from Inr have "files v (csv_path x) \<noteq> None"
        by (elim loop_body_Inr) (simp add: files_write_file)
      with run True show ?thesis by (simp add: main_loop_keeps_files)
    next
      case False
      with Cons.prems have "d \<in> set ds" by simp
      with run show ?thesis by (rule Cons.IH)
    qed
  qed
qed

lemma main_loop_abort:
  assumes "main_loop RPC ds1 w = (w1, None)" and "loop_body RPC d w1 = Inl e"
  shows "main_loop RPC (ds1 @ d # ds2) w = (w1, Some e)"
  using assms by (simp add: main_loop_append)

lemma failing_at_ok:
  "valid_distance d \<Longrightarrow> d \<noteq> k \<Longrightarrow> failing_at k d d = Inr \<lparr>stabilizers = stub_matrix 0\<rparr>"
  by (simp add: failing_at_def build_surface_code_def stub_matrix_def)

lemma build_ok:
  "valid_distance d \<Longrightarrow> build_surface_code stub_matrix d d = Inr \<lparr>stabilizers = stub_matrix 0\<rparr>"
  by (simp add: build_surface_code_def stub_matrix_def)

lemma world_with_dir_dirs: "''pcm_matrices'' \<in> dirs world_with_dir"
  by (simp add: world_with_dir_def)

lemma world_with_dir_writable: "writable world_with_dir (csv_path d)"
  by (simp add: writable_def world_with_dir_def csv_path_def)

lemma csv_path_3: "csv_path 3 = ''pcm_matrices/distance_3_surface_code.csv''"
  by (simp add: csv_path_def format_d_def digits.simps digit_char_def)

lemma csv_paths_distances:
  "map csv_path distances =
     [''pcm_matrices/distance_3_surface_code.csv'', ''pcm_matrices/distance_5_surface_code.csv'',
      ''pcm_matrices/distance_7_surface_code.csv'', ''pcm_matrices/distance_9_surface_code.csv'',
      ''pcm_matrices/distance_11_surface_code.csv'', ''pcm_matrices/distance_13_surface_code.csv'',
      ''pcm_matrices/distance_15_surface_code.csv'']"
  by (simp add: distances_def csv_path_def format_d_def digits.simps digit_char_def)

lemma main_loop_completes:
  "''pcm_matrices'' \<in> dirs w \<Longrightarrow> list_all (\<lambda>d. writable w (csv_path d)) ds \<Longrightarrow>
   list_all (\<lambda>d. RPC d d = Inr (c d)) ds \<Longrightarrow>
   snd (main_loop RPC ds w) = None"
proof (induction ds arbitrary: w)
  case Nil
  then show ?case by simp
next
  case (Cons d ds)
  let ?v = "write_file (csv_path d) (savetxt_text (stabilizers (c d))) w"
  from Cons.prems have body: "loop_body RPC d w = Inr ?v"
    by (simp add: loop_body_ok)
  have "''pcm_matrices'' \<in> dirs ?v"
    using Cons.prems(1) by (simp add: dirs_write_file)
  moreover from Cons.prems(2) have "list_all (\<lambda>d. writable ?v (csv_path d)) ds"
    by (simp add: writable_write_file)
  moreover from Cons.prems(3) have "list_all (\<lambda>d. RPC d d = Inr (c d)) ds" by simp
  ultimately have "snd (main_loop RPC ds ?v) = None"
    by (rule Cons.IH)
  with body show ?case by simp
qed

lemma main_loop_unwritable:
  "main_loop RPC ds w = (w', r) \<Longrightarrow> unwritable w' = unwritable w"
proof (induction ds arbitrary: w)
  case Nil
  then show ?case by simp
next
  case (Cons d ds)
  show ?case
  proof (cases "loop_body RPC d w")
    case (Inl e)
    with Cons.prems show ?thesis by simp
  next
    case (Inr v)
    then have "unwritable v = unwritable w"
      by (elim loop_body_Inr) (simp add: unwritable_write_file)
    moreover from Inr Cons.prems have "main_loop RPC ds v = (w', r)" by simp
    then have "unwritable w' = unwritable v" by (rule Cons.IH)
    ultimately show ?thesis by simp
  qed
qed

lemma parse_csv_savetxt_text: "parse_csv (savetxt_text X) = Some X"
proof -
  have "list_all (\<lambda>r. parse_row (row_text r) = Some r) X"
    by (simp add: list_all_iff parse_row_row_text)
  then have "those (map (parse_row \<circ> row_text) X) = Some X"
    by (rule those_map_id)
  then show ?thesis
    by (simp add: parse_csv_def csv_lines_savetxt_text)
qed

lemma main_loop_other_files:
  "main_loop RPC ds w = (w', r) \<Longrightarrow> p \<notin> set (map csv_path ds) \<Longrightarrow> files w' p = files w p"
proof (induction ds arbitrary: w)
  case Nil
  then show ?case by simp
next
  case (Cons d ds)
  show ?case
  proof (cases "loop_body RPC d w")
    case (Inl e)
    with Cons.prems show ?thesis by simp
  next
    case (Inr v)
    from Cons.prems(2) have pd: "p \<noteq> csv_path d" and rest: "p \<notin> set (map csv_path ds)"
      by simp_all
    from Inr pd have "files v p = files w p"
      by (elim loop_body_Inr) (simp add: files_write_file)
    moreover from Inr Cons.prems(1) have "main_loop RPC ds v = (w', r)" by simp
    then have "files w' p = files v p" using rest by (rule Cons.IH)
    ultimately show ?thesis by simp
  qed
qed

lemma main_loop_written_file:
  "main_loop RPC ds w = (w', None) \<Longrightarrow> d \<in> set ds \<Longrightarrow> RPC d d = Inr c \<Longrightarrow>
   files w' (csv_path d) = Some (savetxt_text (stabilizers c))"
proof (induction ds arbitrary: w)
  case Nil
  then show ?case by simp
next
  case (Cons x ds)
  show ?case
  proof (cases "loop_body RPC x w")
    case (Inl e)
    with Cons.prems show ?thesis by simp
  next
    case (Inr v)
    with Cons.prems(1) have run: "main_loop RPC ds v = (w', None)" by simp
    show ?thesis
    proof (cases "d \<in> set ds")
      case True
      with run show ?thesis using Cons.prems(3) by (rule Cons.IH)
    next
      case False
      with Cons.prems(2) have dx: "d = x" by simp
      have "csv_path d \<notin> set (map csv_path ds)"
      proof
        assume "csv_path d \<in> set (map csv_path ds)"
        then obtain y where "y \<in> set ds" and "csv_path d = csv_path y" by auto
        then have "d \<in> set ds" using csv_path_inj [of d y] by simp
        with False show False by simp
      qed
      with run have "files w' (csv_path d) = files v (csv_path d)"
        by (rule main_loop_other_files)
      moreover from Inr dx Cons.prems(3)
      have "files v (csv_path d) = Some (savetxt_text (stabilizers c))"
        by (elim loop_body_Inr) (simp add: files_write_file)
      ultimately show ?thesis by simp
    qed
  qed
qed

lemma distinct_csv_paths: "distinct ds \<Longrightarrow> distinct (map csv_path ds)"
  by (simp add: distinct_map inj_on_def csv_path_inj)

lemma loop_body_same_dirs:
  assumes "dirs v = dirs w" and "unwritable v = unwritable w" and "loop_body RPC d w = Inl e"
  shows "loop_body RPC d v = Inl e"
proof (cases "RPC d d")
  case (Inl e')
  with assms(3) show ?thesis by (simp add: loop_body_constructor_error)
next
  case (Inr c)
  have same: "writable v (csv_path d) = writable w (csv_path d)"
    using assms(1,2) by (simp add: writable_def)
  show ?thesis
  proof (cases "''pcm_matrices'' \<in> dirs w")
    case True
    show ?thesis
    proof (cases "writable w (csv_path d)")
      case wr: True
      with Inr \<open>''pcm_matrices'' \<in> dirs w\<close> assms(3) show ?thesis
        by (simp add: loop_body_ok)
    next
      case False
      with Inr True assms same show ?thesis by (simp add: loop_body_unwritable)
    qed
  next
    case False
    with Inr assms show ?thesis by (simp add: loop_body_dir_absent)
  qed
qed

lemma main_loop_effect:
  "main_loop RPC ds w = (w', r) \<Longrightarrow>
   \<exists>M. \<forall>v::world. dirs v = dirs w \<and> unwritable v = unwritable w \<longrightarrow>
         (\<exists>v'. main_loop RPC ds v = (v', r) \<and> files v' = files v ++ M \<and> dirs v' = dirs v)"
proof (induction ds arbitrary: w)
  case Nil
  then have "\<forall>v::world. dirs v = dirs w \<and> unwritable v = unwritable w \<longrightarrow>
      (\<exists>v'. main_loop RPC [] v = (v', r) \<and> files v' = files v ++ Map.empty \<and> dirs v' = dirs v)"
    by simp
  then show ?case by blast
next
  case (Cons d ds)
  show ?case
  proof (cases "loop_body RPC d w")
    case (Inl e)
    with Cons.prems have r: "r = Some e" by simp
    have "\<forall>v::world. dirs v = dirs w \<and> unwritable v = unwritable w \<longrightarrow>
      (\<exists>v'. main_loop RPC (d # ds) v = (v', r) \<and> files v' = files v ++ Map.empty \<and> dirs v' = dirs v)"
    proof (intro allI impI)
      fix v :: world assume "dirs v = dirs w \<and> unwritable v = unwritable w"
      then have "dirs v = dirs w" and "unwritable v = unwritable w" by simp_all
      then have "loop_body RPC d v = Inl e" using Inl by (rule loop_body_same_dirs)
      then show "\<exists>v'. main_loop RPC (d # ds) v = (v', r) \<and> files v' = files v ++ Map.empty \<and> dirs v' = dirs v"
        by (simp add: r)
    qed
    then show ?thesis by blast
  next
    case (Inr u)
    then obtain c where c: "RPC d d = Inr c" and dir: "''pcm_matrices'' \<in> dirs w"
      and wr: "writable w (csv_path d)"
      and u: "u = write_file (csv_path d) (savetxt_text (stabilizers c)) w"
      by (rule loop_body_Inr)
    from Inr Cons.prems have "main_loop RPC ds u = (w', r)" by simp
    then obtain M where M: "\<forall>v::world. dirs v = dirs u \<and> unwritable v = unwritable u \<longrightarrow>
         (\<exists>v'. main_loop RPC ds v = (v', r) \<and> files v' = files v ++ M \<and> dirs v' = dirs v)"
      using Cons.IH by blast
    let ?t = "savetxt_text (stabilizers c)"
    let ?N = "[csv_path d \<mapsto> ?t] ++ M"
    have "\<forall>v::world. dirs v = dirs w \<and> unwritable v = unwritable w \<longrightarrow>
      (\<exists>v'. main_loop RPC (d # ds) v = (v', r) \<and> files v' = files v ++ ?N \<and> dirs v' = dirs v)"
    proof (intro allI impI)
      fix v :: world assume both: "dirs v = dirs w \<and> unwritable v = unwritable w"
      then have dv: "dirs v = dirs w" and uv: "unwritable v = unwritable w" by simp_all
      let ?v1 = "write_file (csv_path d) ?t v"
      from wr dv uv have "writable v (csv_path d)" by (simp add: writable_def)
      with c dir dv have body: "loop_body RPC d v = Inr ?v1" by (simp add: loop_body_ok)
      have "dirs ?v1 = dirs u \<and> unwritable ?v1 = unwritable u"
        by (simp add: u dirs_write_file unwritable_write_file dv uv)
      with M obtain v' where run: "main_loop RPC ds ?v1 = (v', r)"
        and f: "files v' = files ?v1 ++ M" and d': "dirs v' = dirs ?v1" by blast
      have "files ?v1 ++ M = files v ++ ?N"
        by (simp add: files_write_file map_add_upd_left)
      with body run f d'
      show "\<exists>v'. main_loop RPC (d # ds) v = (v', r) \<and> files v' = files v ++ ?N \<and> dirs v' = dirs v"
        by (simp add: dirs_write_file)
    qed
    then show ?thesis by blast
  qed
qed

lemma map_add_twice: "(f ++ M) ++ M = f ++ M"
  by (rule ext) (simp add: map_add_def split: option.split)

lemma main_loop_twice:
  assumes "main_loop RPC ds w = (w1, r)"
  shows "\<exists>w2. main_loop RPC ds w1 = (w2, r) \<and> files w2 = files w1 \<and> dirs w2 = dirs w1"
proof -
  from assms obtain M where M: "\<forall>v::world. dirs v = dirs w \<and> unwritable v = unwritable w \<longrightarrow>
         (\<exists>v'. main_loop RPC ds v = (v', r) \<and> files v' = files v ++ M \<and> dirs v' = dirs v)"
    using main_loop_effect by blast
  then obtain x where "main_loop RPC ds w = (x, r)" and "files x = files w ++ M" by blast
  with assms have f1: "files w1 = files w ++ M" by simp
  have "dirs w1 = dirs w" using assms by (rule main_loop_dirs)
  moreover have "unwritable w1 = unwritable w" using assms by (rule main_loop_unwritable)
  ultimately obtain w2 where run: "main_loop RPC ds w1 = (w2, r)"
    and f2: "files w2 = files w1 ++ M" and d2: "dirs w2 = dirs w1" using M by blast
  from f1 f2 have "files w2 = files w1" by (simp only: map_add_twice)
  with run d2 show ?thesis by blast
qed







lemma small_matrix_text:
  "savetxt_text [[1, 0, 1, 0], [0, 1, 0, 1]] = ''1,0,1,0'' @ [newline] @ ''0,1,0,1'' @ [newline]"
  by (simp add: savetxt_text_def row_text_def format_d_def digits.simps digit_char_def comma_def)

section \<open>The function\<close>

text \<open>
  Claim C2. For every integer distance \<open>d\<close>, \<open>generate_surface_code_pcm\<close> calls the
  constructor with both lattice dimensions equal to \<open>d\<close> and returns the
  \<open>stabilizers\<close> attribute of the object it gets, unchanged: it transforms nothing and
  validates nothing itself. What the constructor raises is passed on as it is, and the
  result depends on the constructor at \<open>(d, d)\<close> only.
\<close>

theorem generate_surface_code_pcm_returns_stabilizers:
  "(RPC d d = Inr c \<longrightarrow> generate_surface_code_pcm RPC d = Inr (stabilizers c)) \<and>
   (RPC d d = Inl e \<longrightarrow> generate_surface_code_pcm RPC d = Inl e) \<and>
   (RPC' d d = RPC d d \<longrightarrow> generate_surface_code_pcm RPC' d = generate_surface_code_pcm RPC d)"
  by (simp add: generate_surface_code_pcm_def)

theorem generate_surface_code_pcm_returns_stabilizers_witness:
  "build_surface_code stub_matrix 3 3 = Inr \<lparr>stabilizers = [[1, 0, 1, 0], [0, 1, 0, 1]]\<rparr> \<and>
   generate_surface_code_pcm (build_surface_code stub_matrix) 3 = Inr [[1, 0, 1, 0], [0, 1, 0, 1]] \<and>
   build_surface_code stub_matrix 2 2 = Inl InvalidParameterError \<and>
   generate_surface_code_pcm (build_surface_code stub_matrix) 2 = Inl InvalidParameterError"
proof -
  have a: "build_surface_code stub_matrix 3 3 = Inr \<lparr>stabilizers = [[1, 0, 1, 0], [0, 1, 0, 1]]\<rparr>"
    by (simp add: build_surface_code_def valid_distance_def stub_matrix_def)
  have b: "build_surface_code stub_matrix 2 2 = Inl InvalidParameterError"
    by (simp add: build_surface_code_def valid_distance_def)
  from a b
    generate_surface_code_pcm_returns_stabilizers
      [of "build_surface_code stub_matrix" 3 "\<lparr>stabilizers = [[1, 0, 1, 0], [0, 1, 0, 1]]\<rparr>"
          InvalidParameterError "build_surface_code stub_matrix"]
    generate_surface_code_pcm_returns_stabilizers
      [of "build_surface_code stub_matrix" 2 "\<lparr>stabilizers = []\<rparr>"
          InvalidParameterError "build_surface_code stub_matrix"]
  show ?thesis by simp
qed

section \<open>The driver\<close>

text \<open>
  Claim C1. Run as the top-level program, the driver goes through the distances
  3, 5, 7, 9, 11, 13, 15 in this ascending order; for each distance \<open>d\<close> it constructs
  the code, takes its stabiliser matrix and writes it to
  \<^verbatim>\<open>pcm_matrices/distance_<d>_surface_code.csv\<close>, relative to the working directory.
  When every construction succeeds, the directory exists and each of the seven paths can
  be opened for writing, the run completes with seven files, one per distance: the write
  log lists the seven paths in that order, each file holds the text of its matrix, which
  read back gives that matrix, and no other file is touched.
\<close>

theorem main_writes_seven_files:
  assumes "''pcm_matrices'' \<in> dirs w"
    and "list_all (\<lambda>d. writable w (csv_path d)) distances"
    and "list_all (\<lambda>d. RPC d d = Inr (c d)) distances"
  shows "distances = [3, 5, 7, 9, 11, 13, 15] \<and>
         sorted_wrt (<) distances \<and>
         length (map csv_path distances) = 7 \<and>
         distinct (map csv_path distances) \<and>
         (\<exists>w'. main RPC w = (w', None) \<and>
            log w' = log w @
              [''pcm_matrices/distance_3_surface_code.csv'',
               ''pcm_matrices/distance_5_surface_code.csv'',
               ''pcm_matrices/distance_7_surface_code.csv'',
               ''pcm_matrices/distance_9_surface_code.csv'',
               ''pcm_matrices/distance_11_surface_code.csv'',
               ''pcm_matrices/distance_13_surface_code.csv'',
               ''pcm_matrices/distance_15_surface_code.csv''] \<and>
            list_all (\<lambda>d. files w' (csv_path d) = Some (savetxt_text (stabilizers (c d))))
              distances \<and>
            list_all (\<lambda>d. Option.bind (files w' (csv_path d)) parse_csv
                             = Some (stabilizers (c d))) distances \<and>
            (\<forall>p. p \<notin> set (map csv_path distances) \<longrightarrow> files w' p = files w p) \<and>
            dirs w' = dirs w)"
proof -
  obtain w' r where run: "main_loop RPC distances w = (w', r)"
    by (cases "main_loop RPC distances w")
  from assms have "snd (main_loop RPC distances w) = None"
    by (rule main_loop_completes)
  with run have r: "r = None" by simp
  have "log w' = log w @ map csv_path distances"
    using run unfolding r by (rule main_loop_log)
  then have logs: "log w' = log w @
              [''pcm_matrices/distance_3_surface_code.csv'',
               ''pcm_matrices/distance_5_surface_code.csv'',
               ''pcm_matrices/distance_7_surface_code.csv'',
               ''pcm_matrices/distance_9_surface_code.csv'',
               ''pcm_matrices/distance_11_surface_code.csv'',
               ''pcm_matrices/distance_13_surface_code.csv'',
               ''pcm_matrices/distance_15_surface_code.csv'']"
    by (simp only: csv_paths_distances)
  have written: "list_all (\<lambda>d. files w' (csv_path d) = Some (savetxt_text (stabilizers (c d))))
              distances"
    unfolding list_all_iff
  proof
    fix d assume d: "d \<in> set distances"
    with assms(3) have "RPC d d = Inr (c d)" by (simp add: list_all_iff)
    with run d show "files w' (csv_path d) = Some (savetxt_text (stabilizers (c d)))"
      unfolding r by (rule main_loop_written_file)
  qed
  have readable: "list_all (\<lambda>d. Option.bind (files w' (csv_path d)) parse_csv
                             = Some (stabilizers (c d))) distances"
    unfolding list_all_iff
  proof
    fix d assume "d \<in> set distances"
    with written have "files w' (csv_path d) = Some (savetxt_text (stabilizers (c d)))"
      by (simp add: list_all_iff)
    then show "Option.bind (files w' (csv_path d)) parse_csv = Some (stabilizers (c d))"
      by (simp add: parse_csv_savetxt_text)
  qed
  have others: "\<forall>p. p \<notin> set (map csv_path distances) \<longrightarrow> files w' p = files w p"
    using main_loop_other_files [OF run] by blast
  have d: "dirs w' = dirs w" using run by (rule main_loop_dirs)
  have m: "main RPC w = (w', None)" using run r by (simp add: main_def)
  have l: "distances = [3, 5, 7, 9, 11, 13, 15]" by (simp add: distances_def)
  have s: "sorted_wrt (<) distances" by (simp add: distances_def)
  have n: "length (map csv_path distances) = 7" by (simp add: distances_def)
  have "distinct distances" by (simp add: distances_def)
  then have dist: "distinct (map csv_path distances)" by (rule distinct_csv_paths)
  from l s n dist m logs written readable others d show ?thesis by blast
qed

theorem main_writes_seven_files_witness:
  "''pcm_matrices'' \<in> dirs world_with_dir \<and>
   list_all (\<lambda>d. writable world_with_dir (csv_path d)) distances \<and>
   list_all (\<lambda>d. build_surface_code stub_matrix d d
                    = Inr \<lparr>stabilizers = [[1, 0, 1, 0], [0, 1, 0, 1]]\<rparr>) distances \<and>
   (\<exists>w'. main (build_surface_code stub_matrix) world_with_dir = (w', None) \<and>
      log w' =
              [''pcm_matrices/distance_3_surface_code.csv'',
               ''pcm_matrices/distance_5_surface_code.csv'',
               ''pcm_matrices/distance_7_surface_code.csv'',
               ''pcm_matrices/distance_9_surface_code.csv'',
               ''pcm_matrices/distance_11_surface_code.csv'',
               ''pcm_matrices/distance_13_surface_code.csv'',
               ''pcm_matrices/distance_15_surface_code.csv''] \<and>
      list_all (\<lambda>d. files w' (csv_path d)
                       = Some (''1,0,1,0'' @ [newline] @ ''0,1,0,1'' @ [newline])) distances \<and>
      list_all (\<lambda>d. Option.bind (files w' (csv_path d)) parse_csv
                       = Some [[1, 0, 1, 0], [0, 1, 0, 1]]) distances)"
proof -
  let ?c = "\<lambda>d::int. \<lparr>stabilizers = [[1, 0, 1, 0], [0, 1, 0, 1]]\<rparr>"
  have a: "''pcm_matrices'' \<in> dirs world_with_dir"
    by (rule world_with_dir_dirs)
  have b: "list_all (\<lambda>d. writable world_with_dir (csv_path d)) distances"
    by (simp add: list_all_iff world_with_dir_writable)
  have c: "list_all (\<lambda>d. build_surface_code stub_matrix d d = Inr (?c d)) distances"
    by (simp add: distances_def build_surface_code_def stub_matrix_def valid_distance_def)
  have e: "log world_with_dir = []"
    by (simp add: world_with_dir_def)
  note t = main_writes_seven_files
      [of world_with_dir "build_surface_code stub_matrix" ?c, OF a b c]
  from t obtain w' where m: "main (build_surface_code stub_matrix) world_with_dir = (w', None)"
    and l: "log w' = log world_with_dir @
              [''pcm_matrices/distance_3_surface_code.csv'',
               ''pcm_matrices/distance_5_surface_code.csv'',
               ''pcm_matrices/distance_7_surface_code.csv'',
               ''pcm_matrices/distance_9_surface_code.csv'',
               ''pcm_matrices/distance_11_surface_code.csv'',
               ''pcm_matrices/distance_13_surface_code.csv'',
               ''pcm_matrices/distance_15_surface_code.csv'']"
    and f: "list_all (\<lambda>d. files w' (csv_path d) = Some (savetxt_text (stabilizers (?c d))))
              distances"
    and g: "list_all (\<lambda>d. Option.bind (files w' (csv_path d)) parse_csv
                             = Some (stabilizers (?c d))) distances"
    by blast
  from l e have l': "log w' =
              [''pcm_matrices/distance_3_surface_code.csv'',
               ''pcm_matrices/distance_5_surface_code.csv'',
               ''pcm_matrices/distance_7_surface_code.csv'',
               ''pcm_matrices/distance_9_surface_code.csv'',
               ''pcm_matrices/distance_11_surface_code.csv'',
               ''pcm_matrices/distance_13_surface_code.csv'',
               ''pcm_matrices/distance_15_surface_code.csv'']"
    by simp
  from f have f': "list_all (\<lambda>d. files w' (csv_path d)
                       = Some (''1,0,1,0'' @ [newline] @ ''0,1,0,1'' @ [newline])) distances"
    by (simp add: small_matrix_text)
  from g have g': "list_all (\<lambda>d. Option.bind (files w' (csv_path d)) parse_csv
                       = Some [[1, 0, 1, 0], [0, 1, 0, 1]]) distances"
    by simp
  from a b c m l' f' g' show ?thesis by blast
qed

section \<open>Errors\<close>

text \<open>
  Claim C5. For every invalid distance (0, 2 and the negative ones among them) the
  constructor fails with \<open>InvalidParameterError\<close>; the function passes the error on, the
  loop body ends with it before the write step, and a run that meets such a distance
  stops there with the world unchanged: no file is written for that distance. The
  constructor is the one modelled from the specification.
\<close>

theorem invalid_distance_writes_nothing:
  assumes "\<not> valid_distance d"
  shows "build_surface_code derive d d = Inl InvalidParameterError \<and>
         generate_surface_code_pcm (build_surface_code derive) d = Inl InvalidParameterError \<and>
         loop_body (build_surface_code derive) d w = Inl InvalidParameterError \<and>
         main_loop (build_surface_code derive) (d # ds) w = (w, Some InvalidParameterError)"
proof -
  from assms have bad: "build_surface_code derive d d = Inl InvalidParameterError"
    by (simp add: build_surface_code_def)
  then show ?thesis
    by (simp add: generate_error loop_body_constructor_error)
qed

theorem invalid_distance_writes_nothing_witness:
  "\<not> valid_distance 2 \<and> \<not> valid_distance 0 \<and> \<not> valid_distance (- 1) \<and>
   build_surface_code stub_matrix 2 2 = Inl InvalidParameterError \<and>
   loop_body (build_surface_code stub_matrix) 2 world_with_dir = Inl InvalidParameterError \<and>
   main_loop (build_surface_code stub_matrix) [0, 3] world_with_dir
     = (world_with_dir, Some InvalidParameterError) \<and>
   main_loop (build_surface_code stub_matrix) [- 1, 3] world_with_dir
     = (world_with_dir, Some InvalidParameterError)"
proof -
  have a: "\<not> valid_distance 2" and b: "\<not> valid_distance 0" and c: "\<not> valid_distance (- 1)"
    by (simp_all add: valid_distance_def)
  from a b c
    invalid_distance_writes_nothing [OF a, of stub_matrix world_with_dir "[]"]
    invalid_distance_writes_nothing [OF b, of stub_matrix world_with_dir "[3]"]
    invalid_distance_writes_nothing [OF c, of stub_matrix world_with_dir "[3]"]
  show ?thesis by simp
qed

text \<open>
  Claim C6. When a step fails for some distance, the run ends at that point with that
  error: nothing catches or retries it, the distances after it are not attempted (the
  result is the same whatever they are and whatever the constructor would do for them),
  and the files written for the earlier distances stay as they were written.
\<close>

theorem failure_aborts_run:
  assumes "main_loop RPC ds1 w = (w1, None)" and "loop_body RPC d w1 = Inl e"
  shows "main_loop RPC (ds1 @ d # ds2) w = (w1, Some e) \<and>
         (ds1 @ d # ds2 = distances \<longrightarrow> main RPC w = (w1, Some e)) \<and>
         (list_all (\<lambda>x. RPC' x x = RPC x x) (ds1 @ [d]) \<longrightarrow>
            main_loop RPC' (ds1 @ d # ds2') w = (w1, Some e)) \<and>
         log w1 = log w @ map csv_path ds1 \<and>
         list_all (\<lambda>x. files w1 (csv_path x) \<noteq> None) ds1"
proof (intro conjI impI)
  show a: "main_loop RPC (ds1 @ d # ds2) w = (w1, Some e)"
    using assms by (rule main_loop_abort)
  show "main RPC w = (w1, Some e)" if "ds1 @ d # ds2 = distances"
    using a that by (simp add: main_def)
  show "main_loop RPC' (ds1 @ d # ds2') w = (w1, Some e)"
    if same: "list_all (\<lambda>x. RPC' x x = RPC x x) (ds1 @ [d])"
  proof -
    from same have "main_loop RPC' (ds1 @ [d]) w = main_loop RPC (ds1 @ [d]) w"
      by (rule main_loop_cong)
    also have "main_loop RPC (ds1 @ [d]) w = (w1, Some e)"
      using assms by (rule main_loop_abort)
    finally have "main_loop RPC' (ds1 @ [d]) w = (w1, Some e)" .
    then have "main_loop RPC' ((ds1 @ [d]) @ ds2') w = (w1, Some e)"
      by (simp only: main_loop_append [of RPC' "ds1 @ [d]" ds2' w] prod.case option.case)
    then show ?thesis by simp
  qed
  show "log w1 = log w @ map csv_path ds1"
    using assms(1) by (rule main_loop_log)
  show "list_all (\<lambda>x. files w1 (csv_path x) \<noteq> None) ds1"
    using main_loop_completed_files [OF assms(1)] by (simp add: list_all_iff)
qed

theorem failure_aborts_run_witness:
  "main_loop (failing_at 7) [3, 5] world_with_dir =
     (write_file (csv_path 5) stub_text (write_file (csv_path 3) stub_text world_with_dir), None) \<and>
   loop_body (failing_at 7) 7
     (write_file (csv_path 5) stub_text (write_file (csv_path 3) stub_text world_with_dir))
     = Inl InvalidParameterError \<and>
   main (failing_at 7) world_with_dir =
     (write_file (csv_path 5) stub_text (write_file (csv_path 3) stub_text world_with_dir),
      Some InvalidParameterError) \<and>
   log (write_file (csv_path 5) stub_text (write_file (csv_path 3) stub_text world_with_dir))
     = [csv_path 3, csv_path 5]"
proof -
  let ?w1 = "write_file (csv_path 5) stub_text (write_file (csv_path 3) stub_text world_with_dir)"
  have l3: "loop_body (failing_at 7) 3 world_with_dir = Inr (write_file (csv_path 3) stub_text world_with_dir)"
    by (simp add: loop_body_ok [OF failing_at_ok] valid_distance_def world_with_dir_dirs
        world_with_dir_writable stub_text_def)
  have l5: "loop_body (failing_at 7) 5 (write_file (csv_path 3) stub_text world_with_dir) = Inr ?w1"
    by (simp add: loop_body_ok [OF failing_at_ok] valid_distance_def world_with_dir_dirs
        world_with_dir_writable writable_write_file dirs_write_file stub_text_def)
  have a: "main_loop (failing_at 7) [3, 5] world_with_dir = (?w1, None)"
    by (simp add: l3 l5)
  have b: "loop_body (failing_at 7) 7 ?w1 = Inl InvalidParameterError"
    by (rule loop_body_constructor_error) (simp add: failing_at_def)
  have c: "[3, 5] @ 7 # [9, 11, 13, 15] = distances"
    by (simp add: distances_def)
  have d: "log world_with_dir = []"
    by (simp add: world_with_dir_def)
  from a b c d failure_aborts_run [OF a b, of "[9, 11, 13, 15]" "failing_at 7" "[]"]
  show ?thesis by simp
qed

text \<open>
  Claim C7. When the output directory does not exist, the serialiser creates no directory
  and fails with \<open>PathNotFoundError\<close> before anything is written; the run then writes
  no file and ends with an error at the first distance.
\<close>

theorem missing_directory_aborts:
  assumes "''pcm_matrices'' \<notin> dirs w"
  shows "savetxt (csv_path d) X w = Inl (PathNotFoundError (csv_path d)) \<and>
         (\<exists>e. main RPC w = (w, Some e)) \<and>
         (RPC 3 3 = Inr c \<longrightarrow>
            main RPC w = (w, Some (PathNotFoundError ''pcm_matrices/distance_3_surface_code.csv'')))"
proof (intro conjI impI)
  show "savetxt (csv_path d) X w = Inl (PathNotFoundError (csv_path d))"
    using assms by (rule savetxt_dir_absent)
next
  show "\<exists>e. main RPC w = (w, Some e)"
  proof (cases "RPC 3 3")
    case (Inl e)
    then have "loop_body RPC 3 w = Inl e" by (rule loop_body_constructor_error)
    then show ?thesis by (simp add: main_def distances_def)
  next
    case (Inr c')
    then have "loop_body RPC 3 w = Inl (PathNotFoundError (csv_path 3))"
      using assms by (rule loop_body_dir_absent)
    then show ?thesis by (simp add: main_def distances_def)
  qed
next
  assume "RPC 3 3 = Inr c"
  then have "loop_body RPC 3 w = Inl (PathNotFoundError (csv_path 3))"
    using assms by (rule loop_body_dir_absent)
  then show "main RPC w = (w, Some (PathNotFoundError ''pcm_matrices/distance_3_surface_code.csv''))"
    by (simp add: main_def distances_def csv_path_3)
qed

theorem missing_directory_aborts_witness:
  "''pcm_matrices'' \<notin> dirs world_without_dir \<and>
   build_surface_code stub_matrix 3 3 = Inr \<lparr>stabilizers = stub_matrix 3\<rparr> \<and>
   main (build_surface_code stub_matrix) world_without_dir =
     (world_without_dir, Some (PathNotFoundError ''pcm_matrices/distance_3_surface_code.csv'')) \<and>
   files world_without_dir = Map.empty"
proof -
  have a: "''pcm_matrices'' \<notin> dirs world_without_dir"
    by (simp add: world_without_dir_def)
  have b: "build_surface_code stub_matrix 3 3 = Inr \<lparr>stabilizers = stub_matrix 3\<rparr>"
    by (simp add: build_surface_code_def valid_distance_def)
  have c: "files world_without_dir = Map.empty"
    by (simp add: world_without_dir_def)
  from a b c
    missing_directory_aborts [OF a, of 3 "[]" "build_surface_code stub_matrix"
      "\<lparr>stabilizers = stub_matrix 3\<rparr>"]
  show ?thesis by simp
qed

section \<open>Running twice\<close>

text \<open>
  Claim C8. The constructor is a function of the distance, which is the assumption that
  the collaborator is deterministic: two calls with the same distance give the same
  matrix. Running the driver a second time, in the world the first run left, gives the
  same outcome and leaves every file with the same content, byte for byte, and the same
  directories: each file is overwritten with what it already held.
\<close>

theorem main_idempotent:
  "files (fst (main RPC (fst (main RPC w)))) = files (fst (main RPC w)) \<and>
   dirs (fst (main RPC (fst (main RPC w)))) = dirs (fst (main RPC w)) \<and>
   snd (main RPC (fst (main RPC w))) = snd (main RPC w)"
proof -
  obtain w1 r where first: "main_loop RPC distances w = (w1, r)"
    by (cases "main_loop RPC distances w")
  then obtain w2 where "main_loop RPC distances w1 = (w2, r)"
    and "files w2 = files w1" and "dirs w2 = dirs w1"
    using main_loop_twice by blast
  with first show ?thesis by (simp add: main_def)
qed

section \<open>The format of a file\<close>



section \<open>Round trip\<close>

text \<open>
  Claim C9. Reading back the text that the serialiser writes for an integer matrix gives
  exactly that matrix: every entry keeps its value, and no row or column is added or
  lost. This holds for every list of rows, negative entries and empty rows included.
\<close>

theorem savetxt_roundtrip: "parse_csv (savetxt_text X) = Some X"
proof -
  have "list_all (\<lambda>r. parse_row (row_text r) = Some r) X"
    by (simp add: list_all_iff parse_row_row_text)
  then have "those (map (parse_row \<circ> row_text) X) = Some X"
    by (rule those_map_id)
  then show ?thesis
    by (simp add: parse_csv_def csv_lines_savetxt_text)
qed

end
